theory Spec2Isabelle
  imports Complex_Main "HOL-Library.Sublist"
begin

section \<open>Python values used by i3configger\<close>

text \<open>
  Python strings are modelled as \<^typ>\<open>string\<close>; a character stands for a code point
  below 256. Dictionaries with string keys and values are association lists in
  insertion order, read at the first entry of a key, as \<open>dict\<close> keeps its entries.
\<close>

type_synonym dict = "(string \<times> string) list"

text \<open>\<open>key in d\<close>; a key that is \<open>None\<close> is in no dictionary with string keys.\<close>

definition dict_in :: "string option \<Rightarrow> dict \<Rightarrow> bool" where
  "dict_in k d = (case k of None \<Rightarrow> False | Some s \<Rightarrow> map_of d s \<noteq> None)"

text \<open>\<open>d.get(key)\<close>: the value, or \<open>None\<close>.\<close>

definition dict_get :: "dict \<Rightarrow> string option \<Rightarrow> string option" where
  "dict_get d k = (case k of None \<Rightarrow> None | Some s \<Rightarrow> map_of d s)"

text \<open>The entries left by \<open>del d[key]\<close> when the key is present.\<close>

definition dict_del :: "string \<Rightarrow> dict \<Rightarrow> dict" where
  "dict_del k d = filter (\<lambda>kv. fst kv \<noteq> k) d"

text \<open>\<open>d[key] = value\<close>: an existing key keeps its place, a new one goes last.\<close>

fun dict_set :: "string \<Rightarrow> string \<Rightarrow> dict \<Rightarrow> dict" where
  "dict_set k v [] = [(k, v)]"
| "dict_set k v (kv # d) = (if fst kv = k then (k, v) # d else kv # dict_set k v d)"

datatype error =
    ConfigError string dict
  | I3configgerException
  | MessageError
  | BuildDefError
  | NoSectionError
  | NoOptionError
  | TypeError
  | ValueError
  | KeyError
  | IndexError
  | AttributeError

subsection \<open>String methods\<close>

text \<open>\<open>str.isspace\<close> on one character, for the code points below 256.\<close>

definition isspace :: "char \<Rightarrow> bool" where
  "isspace c = (c \<in> set [CHR 0x09, CHR 0x0A, CHR 0x0B, CHR 0x0C, CHR 0x0D,
     CHR 0x1C, CHR 0x1D, CHR 0x1E, CHR 0x1F, CHR 0x20, CHR 0x85, CHR 0xA0])"

definition strip :: "string \<Rightarrow> string" where
  "strip s = rev (dropWhile isspace (rev (dropWhile isspace s)))"

fun startswith :: "string \<Rightarrow> string \<Rightarrow> bool" where
  "startswith s [] = True"
| "startswith [] (p # ps) = False"
| "startswith (c # cs) (p # ps) = (c = p \<and> startswith cs ps)"

text \<open>\<open>sub in s\<close> for strings.\<close>

fun contains :: "string \<Rightarrow> string \<Rightarrow> bool" where
  "contains [] sub = (sub = [])"
| "contains (c # cs) sub = (startswith (c # cs) sub \<or> contains cs sub)"

text \<open>\<open>sep.join(xs)\<close>.\<close>

fun join :: "string \<Rightarrow> string list \<Rightarrow> string" where
  "join sep [] = []"
| "join sep [x] = x"
| "join sep (x # y # ys) = x @ sep @ join sep (y # ys)"

text \<open>
  \<open>s.split(sep)\<close> for a separator that is not empty: the pieces between the
  occurrences of \<open>sep\<close>, found from the left. \<open>cur\<close> is the piece being read.
\<close>

fun split_from :: "string \<Rightarrow> string \<Rightarrow> string \<Rightarrow> string list" where
  "split_from sep cur [] = [cur]"
| "split_from sep cur (c # cs) =
     (if sep \<noteq> [] \<and> startswith (c # cs) sep
      then cur # split_from sep [] (drop (length sep - 1) cs)
      else split_from sep (cur @ [c]) cs)"

definition split :: "string \<Rightarrow> string \<Rightarrow> string list" where
  "split s sep = split_from sep [] s"

text \<open>
  \<open>s.rsplit(sep, maxsplit=1)[0]\<close>: what stands before the last occurrence of
  \<open>sep\<close>, the whole string when there is none.
\<close>

fun before_last :: "string \<Rightarrow> string \<Rightarrow> string option" where
  "before_last sep [] = None"
| "before_last sep (c # cs) =
     (case before_last sep cs of
        Some h \<Rightarrow> Some (c # h)
      | None \<Rightarrow> if startswith (c # cs) sep then Some [] else None)"

definition rsplit1_head :: "string \<Rightarrow> string \<Rightarrow> string" where
  "rsplit1_head s sep = (case before_last sep s of Some h \<Rightarrow> h | None \<Rightarrow> s)"

text \<open>
  \<open>s.splitlines()\<close>: the line boundaries below code point 256 are \<open>\n\<close>, \<open>\r\<close>,
  \<open>\r\n\<close>, \<open>\v\<close>, \<open>\f\<close>, \<open>\x1c\<close>, \<open>\x1d\<close>, \<open>\x1e\<close> and \<open>\x85\<close>; a boundary
  at the very end opens no further line.
\<close>

definition linebreak :: "char \<Rightarrow> bool" where
  "linebreak c = (c \<in> set [CHR 0x0A, CHR 0x0B, CHR 0x0C, CHR 0x0D,
     CHR 0x1C, CHR 0x1D, CHR 0x1E, CHR 0x85])"

fun lines_from :: "string \<Rightarrow> string \<Rightarrow> string list" where
  "lines_from cur [] = (if cur = [] then [] else [cur])"
| "lines_from cur [c] = (if linebreak c then [cur] else [cur @ [c]])"
| "lines_from cur (c # d # cs) =
     (if c = CHR 0x0D \<and> d = CHR 0x0A then cur # lines_from [] cs
      else if linebreak c then cur # lines_from [] (d # cs)
      else lines_from (cur @ [c]) (d # cs))"

definition splitlines :: "string \<Rightarrow> string list" where
  "splitlines s = lines_from [] s"

text \<open>\<open>str.lower\<close> on the code points below 256.\<close>

definition lower_char :: "char \<Rightarrow> char" where
  "lower_char c =
     (let n = (of_char c :: nat)
      in if (0x41 \<le> n \<and> n \<le> 0x5A) \<or> (0xC0 \<le> n \<and> n \<le> 0xDE \<and> n \<noteq> 0xD7)
         then char_of (n + 0x20) else c)"

definition lower :: "string \<Rightarrow> string" where
  "lower s = map lower_char s"

text \<open>
  \<open>re.sub(CONTINUATION_RE, ' ', s)\<close> with the pattern \<open>\\\s*?\\s*?\n\<close> of the class
  \<open>Partial\<close>: a backslash, white space, a second backslash, letters \<open>s\<close>, a newline.
  Neither white space nor \<open>s\<close> can stand for the character that follows it in the
  pattern, so a match that starts at a position has one possible end.
\<close>

definition match_continuation :: "string \<Rightarrow> string option" where
  "match_continuation s =
     (case s of
        [] \<Rightarrow> None
      | c # r \<Rightarrow>
          if c \<noteq> CHR 0x5C then None
          else (case dropWhile isspace r of
                  [] \<Rightarrow> None
                | c2 # r2 \<Rightarrow>
                    if c2 \<noteq> CHR 0x5C then None
                    else (case dropWhile (\<lambda>x. x = CHR ''s'') r2 of
                            [] \<Rightarrow> None
                          | c3 # r3 \<Rightarrow> if c3 = CHR 0x0A then Some r3 else None)))"

text \<open>
  The substitution scans from the left and replaces each match by one space.
  \<open>skip\<close> counts the characters of the current match still to be passed over.
\<close>

fun sub_from :: "nat \<Rightarrow> string \<Rightarrow> string" where
  "sub_from skip [] = []"
| "sub_from (Suc n) (c # cs) = sub_from n cs"
| "sub_from 0 (c # cs) =
     (case match_continuation (c # cs) of
        Some r \<Rightarrow> CHR 0x20 # sub_from (length cs - length r) cs
      | None \<Rightarrow> c # sub_from 0 cs)"

definition sub_continuation :: "string \<Rightarrow> string" where
  "sub_continuation s = sub_from 0 s"

subsection \<open>Sequences\<close>

text \<open>\<open>xs[i]\<close> with Python's negative indices; out of range raises \<open>IndexError\<close>.\<close>

definition getitem :: "'a list \<Rightarrow> int \<Rightarrow> error + 'a" where
  "getitem xs i =
     (if 0 \<le> i \<and> i < int (length xs) then Inr (xs ! nat i)
      else if i < 0 \<and> - int (length xs) \<le> i then Inr (xs ! nat (int (length xs) + i))
      else Inl IndexError)"

text \<open>\<open>xs.index(x)\<close>: the first position of \<open>x\<close>; \<open>None\<close> stands for \<open>ValueError\<close>.\<close>

fun index :: "'a list \<Rightarrow> 'a \<Rightarrow> nat option" where
  "index [] x = None"
| "index (y # ys) x = (if y = x then Some 0 else map_option Suc (index ys x))"

subsection \<open>pathlib\<close>

text \<open>
  \<open>name.rfind('.')\<close>, and the \<open>suffix\<close> and \<open>stem\<close> that \<open>pathlib\<close> derives from
  the last component \<open>name\<close> of a path: the part from the last dot on is the suffix
  unless that dot is the first or the last character.
\<close>

fun rfind :: "char \<Rightarrow> string \<Rightarrow> nat option" where
  "rfind c [] = None"
| "rfind c (x # xs) =
     (case rfind c xs of
        Some i \<Rightarrow> Some (Suc i)
      | None \<Rightarrow> if x = c then Some 0 else None)"

definition path_suffix :: "string \<Rightarrow> string" where
  "path_suffix name =
     (case rfind (CHR ''.'') name of
        None \<Rightarrow> []
      | Some i \<Rightarrow> if 0 < i \<and> i + 1 < length name then drop i name else [])"

definition path_stem :: "string \<Rightarrow> string" where
  "path_stem name =
     (case rfind (CHR ''.'') name of
        None \<Rightarrow> name
      | Some i \<Rightarrow> if 0 < i \<and> i + 1 < length name then take i name else name)"

section \<open>Fragments: class Partial (partials.py)\<close>

text \<open>
  A \<open>Partial\<close> holds its path and the selectors that \<open>__init__\<close> splits off the
  stem. Only the last component of the path is read (\<open>path.name\<close>, \<open>path.stem\<close>), so
  \<open>path\<close> is that component. \<open>raw\<close> is what \<open>path.read_text()\<close> returns.
\<close>

record partial =
  path :: string
  selectors :: "string list"
  raw :: string

definition Partial :: "string \<Rightarrow> string \<Rightarrow> partial" where
  "Partial file_name content =
     \<lparr>path = file_name, selectors = split (path_stem file_name) ''.'', raw = content\<rparr>"

definition conditional :: "partial \<Rightarrow> bool" where
  "conditional p = (length (selectors p) > 1)"

definition key :: "partial \<Rightarrow> string option" where
  "key p = (if conditional p then Some (selectors p ! 0) else None)"

definition val :: "partial \<Rightarrow> string option" where
  "val p = (if conditional p then Some (selectors p ! 1) else None)"

definition COMMENT_MARK :: string where
  "COMMENT_MARK = ''#''"

definition END_OF_LINE_COMMENT_MARK :: string where
  "END_OF_LINE_COMMENT_MARK = '' # ''"

definition DEFAULT_NAME :: string where
  "DEFAULT_NAME = ''default''"

definition DEFAULT_MARKER :: string where
  "DEFAULT_MARKER = ''# i3configger default''"

definition isDefault :: "partial \<Rightarrow> bool" where
  "isDefault p =
     (if val p = Some DEFAULT_NAME then True
      else if contains (raw p) DEFAULT_MARKER then True
      else False)"

definition joined :: "partial \<Rightarrow> string" where
  "joined p = sub_continuation (raw p)"

text \<open>
  The loop of \<open>filtered\<close>. \<open>SET_MARK\<close> is a constant of the module \<open>base\<close>, which
  is not among the sources: it is the parameter \<open>set_mark\<close>.
\<close>

fun filtered_loop :: "string \<Rightarrow> string list \<Rightarrow> string list \<Rightarrow> string list" where
  "filtered_loop set_mark [] acc = acc"
| "filtered_loop set_mark (line # ls) acc =
     (let l = strip line
      in if l = [] then filtered_loop set_mark ls acc
         else if \<not> startswith l set_mark \<and> \<not> startswith l COMMENT_MARK
              then filtered_loop set_mark ls (acc @ [line])
              else filtered_loop set_mark ls acc)"

definition filtered :: "string \<Rightarrow> partial \<Rightarrow> string" where
  "filtered set_mark p = join [CHR 0x0A] (filtered_loop set_mark (splitlines (joined p)) [])"

fun payload_loop :: "string list \<Rightarrow> string list \<Rightarrow> string list" where
  "payload_loop [] prunes = prunes"
| "payload_loop (line # ls) prunes =
     (let l = strip line
      in if l = [] then payload_loop ls prunes
         else if startswith l COMMENT_MARK then payload_loop ls prunes
         else payload_loop ls (prunes @ [rsplit1_head line END_OF_LINE_COMMENT_MARK]))"

definition payload :: "partial \<Rightarrow> string" where
  "payload p = join [CHR 0x0A] (payload_loop (splitlines (joined p)) [])"

definition display :: "string \<Rightarrow> partial \<Rightarrow> string" where
  "display set_mark p =
     (if filtered set_mark p = [] then []
      else ''### '' @ path p @ '' ###'' @ [CHR 0x0A] @ filtered set_mark p @ [CHR 0x0A, CHR 0x0A])"

section \<open>Selection (partials.py)\<close>

text \<open>\<open>find(prts, key, value)\<close>: the first fragment with that key and value, or \<open>None\<close>.\<close>

fun find_partial :: "partial list \<Rightarrow> string option \<Rightarrow> string option \<Rightarrow> partial option" where
  "find_partial [] k v = None"
| "find_partial (prt # prts) k v =
     (if key prt = k \<and> val prt = v then Some prt else find_partial prts k v)"

text \<open>
  \<open>select\<close> changes the dictionary it is given: \<open>_select\<close> deletes the key of the
  fragment it appends from \<open>selector\<close> itself. The model therefore returns the
  selector as the call leaves it beside the result. A selector that is \<open>None\<close> is
  falsy in the tests of the loop, and \<open>partial.key in selector\<close> in \<open>_select\<close> raises
  \<open>TypeError\<close> on it.
\<close>

datatype selection = Single partial | Many "partial list"

definition truthy :: "dict option \<Rightarrow> bool" where
  "truthy selector = (case selector of None \<Rightarrow> False | Some d \<Rightarrow> d \<noteq> [])"

definition in_excludes :: "string option \<Rightarrow> string list option \<Rightarrow> bool" where
  "in_excludes k excludes =
     (case excludes of None \<Rightarrow> False | Some ex \<Rightarrow> ex \<noteq> [] \<and> k \<in> set (map Some ex))"

text \<open>The inner function \<open>_select\<close>, on the list \<open>selected\<close> and the selector.\<close>

definition select_one ::
  "partial \<Rightarrow> partial list \<Rightarrow> dict option \<Rightarrow> error + (partial list \<times> dict option)" where
  "select_one p selected selector =
     (case selector of
        None \<Rightarrow> Inl TypeError
      | Some d \<Rightarrow>
          Inr (selected @ [p],
               Some (if dict_in (key p) d
                     then (case key p of None \<Rightarrow> d | Some k \<Rightarrow> dict_del k d)
                     else d)))"

fun select_loop ::
  "partial list \<Rightarrow> string list option \<Rightarrow> bool \<Rightarrow> bool \<Rightarrow> partial list \<Rightarrow> dict option
   \<Rightarrow> error + (partial list \<times> dict option)" where
  "select_loop [] excludes conditionals defaults selected selector = Inr (selected, selector)"
| "select_loop (p # ps) excludes conditionals defaults selected selector =
     (if conditional p then
        if in_excludes (key p) excludes
        then select_loop ps excludes conditionals defaults selected selector
        else if truthy selector \<and> (case selector of None \<Rightarrow> False
                  | Some d \<Rightarrow> dict_in (key p) d \<and> val p = dict_get d (key p))
        then (case select_one p selected selector of
                Inl e \<Rightarrow> Inl e
              | Inr (selected', selector') \<Rightarrow>
                  select_loop ps excludes conditionals defaults selected' selector')
        else if defaults \<and> isDefault p
        then (case select_one p selected selector of
                Inl e \<Rightarrow> Inl e
              | Inr (selected', selector') \<Rightarrow>
                  select_loop ps excludes conditionals defaults selected' selector')
        else select_loop ps excludes conditionals defaults selected selector
      else if conditionals
      then (case select_one p selected selector of
              Inl e \<Rightarrow> Inl e
            | Inr (selected', selector') \<Rightarrow>
                select_loop ps excludes conditionals defaults selected' selector')
      else select_loop ps excludes conditionals defaults selected selector)"

text \<open>\<open>selected[0] if len(selected) == 1 else selected\<close>.\<close>

definition one_or_list :: "partial list \<Rightarrow> selection" where
  "one_or_list selected = (case selected of [p] \<Rightarrow> Single p | _ \<Rightarrow> Many selected)"

text \<open>
  \<open>select(partials, selector, excludes, conditionals, defaults)\<close>: the value returned
  or the exception raised, and the selector afterwards.
\<close>

definition select ::
  "partial list \<Rightarrow> dict option \<Rightarrow> string list option \<Rightarrow> bool \<Rightarrow> bool
   \<Rightarrow> (error + selection) \<times> dict option" where
  "select partials selector excludes conditionals defaults =
     (case select_loop partials excludes conditionals defaults [] selector of
        Inl e \<Rightarrow> (Inl e, selector)
      | Inr (selected, selector') \<Rightarrow>
          (case selector' of
             Some (kv # d) \<Rightarrow>
               (Inl (ConfigError ''not all selector processed: %s'' (kv # d)), selector')
           | _ \<Rightarrow> (Inr (one_or_list selected), selector')))"

text \<open>The fragments of a selection, bare or listed.\<close>

definition fragments :: "selection \<Rightarrow> partial list" where
  "fragments r = (case r of Single p \<Rightarrow> [p] | Many ps \<Rightarrow> ps)"

text \<open>
  \<open>get_content\<close>, the caller of \<open>select\<close>: it tells a list from a bare fragment with
  \<open>isinstance\<close>. A fragment object is truthy, an empty list is not.
\<close>

definition get_content ::
  "string \<Rightarrow> partial list \<Rightarrow> dict option \<Rightarrow> string list option
   \<Rightarrow> (error + string) \<times> dict option" where
  "get_content set_mark prts selectorMap excludes =
     (case select prts selectorMap excludes True True of
        (Inl e, selector') \<Rightarrow> (Inl e, selector')
      | (Inr (Many selected), selector') \<Rightarrow>
          if selected = [] then (Inl I3configgerException, selector')
          else (Inr (concat (map (display set_mark) selected)), selector')
      | (Inr (Single p), selector') \<Rightarrow> (Inr (display set_mark p), selector'))"

section \<open>The state store: class State (config.py)\<close>

text \<open>
  The state document has the two dictionaries \<open>state["select"]\<close> and
  \<open>state["set"]\<close>. The file at \<open>statePath\<close> is a \<^typ>\<open>'a option\<close>: \<open>None\<close> when it
  does not exist, otherwise the document it holds.
\<close>

record state =
  select_ns :: dict
  set_ns :: dict

text \<open>
  The first item of a message is compared with the class constants, which are
  tuples of a name and a number of arguments; a message typed by a user carries a
  string there. Both kinds of value are kept apart, as \<open>==\<close> does.
\<close>

datatype command = Str string | Tup string nat

definition I3STATUS :: string where
  "I3STATUS = ''i3status''"

definition SELECT_NEXT :: command where
  "SELECT_NEXT = Tup ''select-next'' 1"

definition SELECT_PREVIOUS :: command where
  "SELECT_PREVIOUS = Tup ''select-previous'' 1"

definition SELECT :: command where
  "SELECT = Tup ''select'' 2"

definition SET :: command where
  "SET = Tup ''set'' 2"

definition DEL :: string where
  "DEL = ''del''"

text \<open>
  \<open>_next\<close> and \<open>_previous\<close>. \<open>items.index(current)\<close> raises \<open>ValueError\<close>, which
  neither function catches; only \<open>IndexError\<close> is handled.
\<close>

definition State_next :: "'a \<Rightarrow> 'a list \<Rightarrow> error + 'a" where
  "State_next current items =
     (case index items current of
        None \<Rightarrow> Inl ValueError
      | Some i \<Rightarrow>
          (case getitem items (int i + 1) of
             Inr x \<Rightarrow> Inr x
           | Inl e \<Rightarrow> if e = IndexError then getitem items 0 else Inl e))"

definition State_previous :: "'a \<Rightarrow> 'a list \<Rightarrow> error + 'a" where
  "State_previous current items =
     (case index items current of
        None \<Rightarrow> Inl ValueError
      | Some i \<Rightarrow>
          (case getitem items (int i - 1) of
             Inr x \<Rightarrow> Inr x
           | Inl e \<Rightarrow> if e = IndexError then getitem items (- 1) else Inl e))"

text \<open>
  \<open>freeze(statePath, state)\<close> writes the document, after which \<open>process\<close> returns
  \<open>None\<close>. The file is the mapping that \<open>fetch\<close> reads back; the order in which
  \<open>json.dump\<close> writes the keys is not modelled.
\<close>

definition freeze :: "state \<Rightarrow> (error + state option) \<times> state option" where
  "freeze st = (Inr None, Some st)"

text \<open>
  \<open>populate_initial_state\<close> reads \<open>prt.needsSelection\<close> of every fragment. The class
  \<open>Partial\<close> defines no such attribute, so the first fragment raises
  \<open>AttributeError\<close>; with no fragment the empty state is written and returned.
\<close>

definition populate_initial_state :: "partial list \<Rightarrow> (error + state) \<times> state option" where
  "populate_initial_state prts =
     (case prts of
        [] \<Rightarrow> (Inr \<lparr>select_ns = [], set_ns = []\<rparr>, Some \<lparr>select_ns = [], set_ns = []\<rparr>)
      | prt # _ \<Rightarrow> (Inl AttributeError, None))"

definition fetch_state :: "state option \<Rightarrow> partial list \<Rightarrow> (error + state) \<times> state option" where
  "fetch_state file prts =
     (case file of
        None \<Rightarrow> populate_initial_state prts
      | Some st \<Rightarrow> (Inr st, file))"

text \<open>
  \<open>State.process(statePath, prts, message)\<close>. A message is \<open>None\<close> when it is empty;
  otherwise it is its first item and the strings after it, of which
  \<open>command, key, *rest = message\<close> needs one. The result is the value returned
  (\<open>state\<close>, or \<open>None\<close> after \<open>freeze\<close>) or the exception, and the file afterwards.

  In the branch of \<open>select-next\<close> and \<open>select-previous\<close> the first statement is
  \<open>candidates = partials.find(prts, key)\<close>. \<open>find\<close> has the three parameters
  \<open>prts\<close>, \<open>key\<close> and \<open>value\<close>, none with a default, so this call raises
  \<open>TypeError\<close> and the rest of the branch is not reached.
  In the branch of \<open>select\<close>, \<open>value.lower == cls.DEL\<close> compares a bound method with
  a string and is false for every string; \<open>find\<close> has returned a fragment whose
  value equals \<open>value\<close>, so \<open>candidate.value\<close> is a string there (the dictionaries
  of the model hold strings only, and the case of \<open>None\<close> is never taken).
\<close>

definition process ::
  "state option \<Rightarrow> partial list \<Rightarrow> (command \<times> string list) option
   \<Rightarrow> (error + state option) \<times> state option" where
  "process file prts message =
     (case fetch_state file prts of
        (Inl e, file') \<Rightarrow> (Inl e, file')
      | (Inr st, file') \<Rightarrow>
          (case message of
             None \<Rightarrow> (Inr (Some st), file')
           | Some (cmd, []) \<Rightarrow> (Inl ValueError, file')
           | Some (cmd, k # rest) \<Rightarrow>
               (let value = (case rest of [] \<Rightarrow> None | v # _ \<Rightarrow> Some v)
                in if cmd = SET then
                     (case value of
                        None \<Rightarrow> (Inl AttributeError, file')
                      | Some v \<Rightarrow>
                          if lower v = DEL
                          then (if dict_in (Some k) (set_ns st)
                                then freeze (st\<lparr>set_ns := dict_del k (set_ns st)\<rparr>)
                                else (Inl KeyError, file'))
                          else freeze (st\<lparr>set_ns := dict_set k v (set_ns st)\<rparr>))
                   else if cmd \<in> set [SELECT_NEXT, SELECT_PREVIOUS] then (Inl TypeError, file')
                   else if cmd = SELECT then
                     (case find_partial prts (Some k) value of
                        None \<Rightarrow> (Inl MessageError, file')
                      | Some candidate \<Rightarrow>
                          (case value of
                             None \<Rightarrow> (Inl AttributeError, file')
                           | Some v \<Rightarrow>
                               (case val candidate of
                                  None \<Rightarrow> (Inl TypeError, file')
                                | Some cv \<Rightarrow>
                                    freeze (st\<lparr>select_ns := dict_set k cv (select_ns st)\<rparr>))))
                   else freeze st)))"

text \<open>\<open>get_spec(message)\<close>: the number of arguments of a command name.\<close>

definition get_spec :: "string \<Rightarrow> error + nat" where
  "get_spec message =
     (case filter (\<lambda>c. fst c = message)
             [(''select-next'', 1), (''select-previous'', 1), (''select'', 2), (''set'', 2)] of
        [] \<Rightarrow> Inl MessageError
      | c # _ \<Rightarrow> Inr (snd c))"

section \<open>Build definitions: class BuildDef (lib.py)\<close>

text \<open>
  A \<open>ConfigParser\<close> is read as sections of options with their strings. Paths are
  the strings they print as; \<open>expand\<close> stands for \<open>os.path.expandvars\<close> followed by
  \<open>Path.expanduser\<close>, which depend on the environment.
\<close>

type_synonym config = "(string \<times> dict) list"

definition config_get :: "config \<Rightarrow> string \<Rightarrow> string \<Rightarrow> error + string" where
  "config_get config section option =
     (case map_of config section of
        None \<Rightarrow> Inl NoSectionError
      | Some opts \<Rightarrow>
          (case map_of opts option of None \<Rightarrow> Inl NoOptionError | Some v \<Rightarrow> Inr v))"

text \<open>\<open>config.get(section, option, fallback=[])\<close>; \<open>None\<close> stands for the fallback.\<close>

definition config_get_fallback :: "config \<Rightarrow> string \<Rightarrow> string \<Rightarrow> string option" where
  "config_get_fallback config section option =
     (case config_get config section option of Inl e \<Rightarrow> None | Inr v \<Rightarrow> Some v)"

definition config_getboolean :: "config \<Rightarrow> string \<Rightarrow> string \<Rightarrow> error + bool" where
  "config_getboolean config section option =
     (case config_get config section option of
        Inl e \<Rightarrow> Inl e
      | Inr v \<Rightarrow>
          if lower v \<in> set [''1'', ''yes'', ''true'', ''on''] then Inr True
          else if lower v \<in> set [''0'', ''no'', ''false'', ''off''] then Inr False
          else Inl ValueError)"

text \<open>\<open>prep(incoming, asPaths)\<close>; \<open>None\<close> is the empty list given as fallback.\<close>

fun serialize :: "string list \<Rightarrow> string list" where
  "serialize [] = []"
| "serialize (item # items) =
     (if contains item [CHR 0x0A]
      then filter (\<lambda>p. p \<noteq> []) (split item [CHR 0x0A]) @ serialize items
      else item # serialize items)"

definition prep :: "(string \<Rightarrow> string) \<Rightarrow> string option \<Rightarrow> bool \<Rightarrow> string list" where
  "prep expand incoming asPaths =
     (case incoming of
        None \<Rightarrow> []
      | Some s \<Rightarrow>
          if s = [] then []
          else if \<not> asPaths then serialize [s]
          else map expand (serialize [s]))"

record builddef =
  name :: string
  target :: string
  sources :: "string list"
  addheader :: bool
  addinfo :: bool
  suffix' :: string
  themes :: "string list"
  excludes :: "string list"
  files :: "string list"
  theme :: "string option"
  watchPaths :: "string list"
  lastFilename :: "string option"
  lastBuild :: "real option"

definition MARK :: string where
  "MARK = ''builddef:''"

definition BUILD_DELAY :: real where
  "BUILD_DELAY = 0.1"

definition bind :: "error + 'a \<Rightarrow> ('a \<Rightarrow> error + 'b) \<Rightarrow> error + 'b" where
  "bind r f = (case r of Inl e \<Rightarrow> Inl e | Inr x \<Rightarrow> f x)"

text \<open>
  \<open>BuildDef.__init__(config, section)\<close>, statement by statement. It does not call
  \<open>check_sanity\<close>.
\<close>

definition BuildDef :: "(string \<Rightarrow> string) \<Rightarrow> config \<Rightarrow> string \<Rightarrow> error + builddef" where
  "BuildDef expand config section =
     bind (getitem (split section MARK) (- 1)) (\<lambda>name'.
     bind (config_get config section ''target'') (\<lambda>t.
     bind (getitem (prep expand (Some t) True) 0) (\<lambda>target'.
     bind (config_get config section ''sources'') (\<lambda>srcs.
     bind (config_getboolean config section ''addheader'') (\<lambda>addheader'.
     bind (config_getboolean config section ''addinfo'') (\<lambda>addinfo'.
     bind (config_get config section ''suffix'') (\<lambda>sfx.
     bind (config_get config section ''themes'') (\<lambda>ths.
     bind (case config_get config section ''theme'' of
             Inr v \<Rightarrow> Inr (Some v)
           | Inl e \<Rightarrow> if e = NoOptionError then Inr None else Inl e) (\<lambda>theme'.
       Inr \<lparr>name = name',
            target = target',
            sources = prep expand (Some srcs) True,
            addheader = addheader',
            addinfo = addinfo',
            suffix' = sfx,
            themes = prep expand (Some ths) True,
            excludes = prep expand (config_get_fallback config section ''excludes'') False,
            files = prep expand (config_get_fallback config section ''files'') False,
            theme = theme',
            watchPaths = prep expand (Some ths) True @ prep expand (Some srcs) True,
            lastFilename = None,
            lastBuild = None\<rparr>)))))))))"

definition check_sanity :: "builddef \<Rightarrow> error + unit" where
  "check_sanity bd =
     (if files bd \<noteq> [] \<and> excludes bd \<noteq> [] then Inl BuildDefError else Inr ())"

text \<open>
  \<open>matches(self, path)\<close> returns \<open>False\<close> from its two tests and otherwise falls
  off its end, which returns \<open>None\<close>. \<open>path.stem\<close> is a string and \<open>watchPaths\<close> holds
  \<open>Path\<close> objects; \<open>in\<close> compares them with \<open>==\<close>, which tells the two types apart.
\<close>

datatype pyobj = PyStr string | PyPath string

definition matches :: "builddef \<Rightarrow> string \<Rightarrow> bool option" where
  "matches bd path_name =
     (if path_suffix path_name \<noteq> suffix' bd then Some False
      else if PyStr (path_stem path_name) \<notin> set (map PyPath (watchPaths bd)) then Some False
      else None)"

text \<open>
  A call of the method \<open>matches\<close> with the given arguments: it has the one
  parameter \<open>path\<close> beside \<open>self\<close>, and any other number of arguments raises
  \<open>TypeError\<close>.
\<close>

definition call_matches :: "builddef \<Rightarrow> string list \<Rightarrow> error + bool option" where
  "call_matches bd args = (case args of [p] \<Rightarrow> Inr (matches bd p) | _ \<Rightarrow> Inl TypeError)"

text \<open>
  \<open>needs_build(header, typeNames, watchPath, filename)\<close> at the time \<open>now\<close> that
  \<open>time.time()\<close> returns; \<open>header\<close> and \<open>typeNames\<close> are not read. Times are real
  numbers here. The first statement calls \<open>self.matches(filename, watchPath)\<close>.
\<close>

definition needs_build :: "builddef \<Rightarrow> real \<Rightarrow> string \<Rightarrow> string \<Rightarrow> error + bool" where
  "needs_build bd now watchPath filename =
     (case call_matches bd [filename, watchPath] of
        Inl e \<Rightarrow> Inl e
      | Inr m \<Rightarrow>
          if m \<noteq> Some True then Inr False
          else (case lastBuild bd of
                  None \<Rightarrow> Inr True
                | Some t \<Rightarrow>
                    if t = 0 then Inr True
                    else if Some filename \<noteq> lastFilename bd then Inr True
                    else if now - t \<ge> BUILD_DELAY then Inr True
                    else Inr False))"

section \<open>Notions used in the statements\<close>

subsection \<open>One pass of the selection loop\<close>

text \<open>
  Whether the loop of \<open>select\<close> appends the fragment \<open>p\<close> when the selector holds
  \<open>d\<close>, and what \<open>_select\<close> then leaves of \<open>d\<close>.
\<close>

definition takes :: "partial \<Rightarrow> string list option \<Rightarrow> bool \<Rightarrow> bool \<Rightarrow> dict \<Rightarrow> bool" where
  "takes p ex conditionals defaults d =
     (if conditional p
      then \<not> in_excludes (key p) ex \<and>
           ((d \<noteq> [] \<and> dict_in (key p) d \<and> val p = dict_get d (key p)) \<or> (defaults \<and> isDefault p))
      else conditionals)"

definition consume :: "partial \<Rightarrow> dict \<Rightarrow> dict" where
  "consume p d = (case key p of None \<Rightarrow> d | Some k \<Rightarrow> dict_del k d)"


text \<open>Two calls in sequence on the same selector object.\<close>

definition select_twice ::
  "partial list \<Rightarrow> dict option \<Rightarrow> string list option \<Rightarrow> bool \<Rightarrow> bool
   \<Rightarrow> (error + selection) \<times> (error + selection) \<times> dict option" where
  "select_twice prts selector ex conditionals defaults =
     (case select prts selector ex conditionals defaults of
        (r1, s1) \<Rightarrow>
          (case select prts s1 ex conditionals defaults of
             (r2, s2) \<Rightarrow> (r1, r2, s2)))"

subsection \<open>The selection that the specification describes\<close>

text \<open>
  A fragment is matched by the selector map \<open>S\<close> when it is conditional and \<open>S\<close>
  maps its key to its value; it is the first matched one when no earlier fragment
  of \<open>F\<close> has the same key and value.
\<close>

definition matched :: "dict \<Rightarrow> partial \<Rightarrow> bool" where
  "matched S p = (conditional p \<and> dict_in (key p) S \<and> val p = dict_get S (key p))"

definition same_selectors :: "partial \<Rightarrow> partial \<Rightarrow> bool" where
  "same_selectors p q = (conditional q \<and> key q = key p \<and> val q = val p)"

definition first_matched :: "partial list \<Rightarrow> dict \<Rightarrow> partial \<Rightarrow> bool" where
  "first_matched F S p = (matched S p \<and> List.find (same_selectors p) F = Some p)"

definition wanted :: "partial list \<Rightarrow> dict \<Rightarrow> partial \<Rightarrow> bool" where
  "wanted F S p =
     (if conditional p
      then (if dict_in (key p) S then first_matched F S p else isDefault p)
      else True)"


text \<open>Every entry of \<open>S\<close> is matched by some conditional fragment of \<open>F\<close>.\<close>

definition selectors_matched :: "partial list \<Rightarrow> dict \<Rightarrow> bool" where
  "selectors_matched F S =
     list_all (\<lambda>kv. list_ex (\<lambda>p. conditional p \<and> key p = Some (fst kv) \<and> val p = Some (snd kv)) F) S"

text \<open>
  The selection in the words of the specification: the fragment whose value is the
  one selected for its key, every unconditional fragment, and every default
  fragment whose key the selector map does not hold.
\<close>

definition spec_selection :: "partial list \<Rightarrow> dict \<Rightarrow> partial list" where
  "spec_selection F S =
     filter (\<lambda>p. if conditional p
                 then (if dict_in (key p) S then val p = dict_get S (key p) else isDefault p)
                 else True) F"

text \<open>The entries of \<open>S\<close> whose key no first matched fragment of \<open>pre\<close> carries.\<close>

definition remaining :: "partial list \<Rightarrow> dict \<Rightarrow> partial list \<Rightarrow> dict" where
  "remaining F S pre =
     filter (\<lambda>kv. \<not> (\<exists>q \<in> set pre. first_matched F S q \<and> key q = Some (fst kv))) S"


subsection \<open>The views of a fragment\<close>

text \<open>The lines that the loop of \<open>filtered\<close> keeps.\<close>

definition kept :: "string \<Rightarrow> string \<Rightarrow> bool" where
  "kept set_mark line =
     (strip line \<noteq> [] \<and> \<not> startswith (strip line) set_mark \<and>
      \<not> startswith (strip line) COMMENT_MARK)"

text \<open>
  The display view in the words of the specification: the payload under a banner
  that names the file, or the empty string when the payload is empty.
\<close>

definition spec_display :: "partial \<Rightarrow> string" where
  "spec_display p =
     (if payload p = [] then []
      else ''### '' @ path p @ '' ###'' @ [CHR 0x0A] @ payload p @ [CHR 0x0A, CHR 0x0A])"

subsection \<open>Examples\<close>

definition base_conf :: partial where
  "base_conf = Partial ''base.conf'' ''bindsym $mod+Return exec i3-sensible-terminal''"

definition mode_default :: partial where
  "mode_default = Partial ''mode.default.conf'' ''workspace_layout default''"

definition scheme_dark :: partial where
  "scheme_dark =
     Partial ''scheme.dark.conf'' ''# i3configger default\<newline>client.focused #000000''"

definition scheme_light :: partial where
  "scheme_light = Partial ''scheme.light.conf'' ''client.focused #ffffff''"

definition keys_conf :: partial where
  "keys_conf = Partial ''keys.conf'' ''bindsym $mod+d exec dmenu_run # launcher''"

definition vars_conf :: partial where
  "vars_conf = Partial ''vars.conf'' ''set $mod Mod4''"

definition state_light :: state where
  "state_light = \<lparr>select_ns = [(''scheme'', ''light'')], set_ns = []\<rparr>"

definition state_gone :: state where
  "state_gone = \<lparr>select_ns = [(''scheme'', ''solarized'')], set_ns = []\<rparr>"

definition ini :: config where
  "ini = [(''builddef:i3'',
           [(''target'', ''/home/u/.i3/config''), (''sources'', ''/home/u/.i3/config.d''),
            (''addheader'', ''yes''), (''addinfo'', ''no''), (''suffix'', ''.conf''),
            (''themes'', ''/home/u/.i3/themes''), (''excludes'', ''old.conf''),
            (''files'', ''base.conf\<newline>keys.conf'')])]"

definition i3_def :: builddef where
  "i3_def = \<lparr>name = ''i3'', target = ''/home/u/.i3/config'',
              sources = [''/home/u/.i3/config.d''], addheader = True, addinfo = False,
              suffix' = ''.conf'', themes = [''/home/u/.i3/themes''],
              excludes = [''old.conf''], files = [''base.conf'', ''keys.conf''],
              theme = None,
              watchPaths = [''/home/u/.i3/themes'', ''/home/u/.i3/config.d''],
              lastFilename = None, lastBuild = None\<rparr>"

section \<open>Properties of the selection loop\<close>

lemmas partial_eval =
  Partial_def path_stem_def split_def conditional_def key_def val_def isDefault_def
  DEFAULT_NAME_def DEFAULT_MARKER_def

lemmas example_fragments = base_conf_def scheme_dark_def scheme_light_def

lemmas select_eval =
  select_def truthy_def in_excludes_def select_one_def dict_in_def dict_get_def dict_del_def
  one_or_list_def

lemma dict_del_absent: "map_of d k = None \<Longrightarrow> dict_del k d = d"
  by (induction d) (auto simp: dict_del_def split: if_splits)

lemma select_loop_Cons_Some:
  "select_loop (p # ps) ex c df acc (Some d) =
     (if takes p ex c df d
      then select_loop ps ex c df (acc @ [p]) (Some (consume p d))
      else select_loop ps ex c df acc (Some d))"
  by (auto simp: takes_def consume_def select_one_def truthy_def dict_in_def dict_del_absent
           split: option.splits)

lemma select_loop_Some:
  "\<exists>xs d'. select_loop ps ex c df acc (Some d) = Inr (acc @ xs, Some d') \<and> subseq xs ps
      \<and> (d = [] \<longrightarrow> d' = [])"
proof (induction ps arbitrary: acc d)
  case Nil
  show ?case by simp
next
  case (Cons p ps)
  show ?case
  proof (cases "takes p ex c df d")
    case True
    from Cons.IH [of "acc @ [p]" "consume p d"] obtain xs d' where
      h: "select_loop ps ex c df (acc @ [p]) (Some (consume p d)) = Inr ((acc @ [p]) @ xs, Some d')"
         "subseq xs ps" "consume p d = [] \<longrightarrow> d' = []"
      by blast
    have "d = [] \<longrightarrow> consume p d = []"
      by (simp add: consume_def dict_del_def split: option.splits)
    with h True show ?thesis
      by (intro exI [of _ "p # xs"] exI [of _ d']) (simp add: select_loop_Cons_Some del: select_loop.simps)
  next
    case False
    from Cons.IH [of acc d] obtain xs d' where
      h: "select_loop ps ex c df acc (Some d) = Inr (acc @ xs, Some d')"
         "subseq xs ps" "d = [] \<longrightarrow> d' = []"
      by blast
    with False show ?thesis
      by (intro exI [of _ xs] exI [of _ d'])
         (simp add: select_loop_Cons_Some list_emb_Cons del: select_loop.simps)
  qed
qed

lemma select_loop_None:
  "select_loop ps ex c df acc None = Inr (xs, s') \<Longrightarrow> xs = acc \<and> s' = None"
  by (induction ps) (auto simp: select_one_def truthy_def split: if_splits)

lemma select_loop_subseq:
  "select_loop ps ex c df [] sel = Inr (xs, s') \<Longrightarrow> subseq xs ps"
proof (cases sel)
  case None
  assume "select_loop ps ex c df [] sel = Inr (xs, s')"
  with None show ?thesis using select_loop_None [of ps ex c df "[]" xs s'] by simp
next
  case (Some d)
  assume h: "select_loop ps ex c df [] sel = Inr (xs, s')"
  from select_loop_Some [of ps ex c df "[]" d] Some h show ?thesis by auto
qed

lemma fragments_one_or_list: "fragments (one_or_list xs) = xs"
  by (auto simp: fragments_def one_or_list_def split: list.splits)

lemma one_or_list_fragments_iff: "(r = one_or_list (fragments r)) = (\<forall>p. r \<noteq> Many [p])"
  by (cases r) (auto simp: fragments_def one_or_list_def split: list.splits)

lemma map_of_filter_key:
  "map_of (filter (\<lambda>kv. Q (fst kv)) S) k = (if Q k then map_of S k else None)"
  by (induction S) auto

lemma find_append_Cons:
  "List.find P (pre @ p # ps) =
     (case List.find P pre of Some q \<Rightarrow> Some q | None \<Rightarrow> if P p then Some p else List.find P ps)"
  by (induction pre) auto

lemma find_in_set: "List.find P xs = Some x \<Longrightarrow> x \<in> set xs \<and> P x"
  by (induction xs) (auto split: if_splits)

lemma find_exists: "x \<in> set xs \<Longrightarrow> P x \<Longrightarrow> \<exists>y. List.find P xs = Some y"
  by (induction xs) auto

lemma conditional_key_val: "conditional p \<Longrightarrow> \<exists>k v. key p = Some k \<and> val p = Some v"
  by (simp add: key_def val_def)

lemma not_conditional_key: "\<not> conditional p \<Longrightarrow> key p = None"
  by (simp add: key_def)

lemma remaining_snoc_eq:
  "\<not> first_matched F S p \<Longrightarrow> remaining F S (pre @ [p]) = remaining F S pre"
  by (simp add: remaining_def)

lemma remaining_snoc_del:
  "first_matched F S p \<Longrightarrow> key p = Some k \<Longrightarrow>
   remaining F S (pre @ [p]) = dict_del k (remaining F S pre)"
  by (auto simp: remaining_def dict_del_def intro!: filter_cong)

lemma map_of_remaining:
  "map_of (remaining F S pre) k =
     (if \<exists>q \<in> set pre. first_matched F S q \<and> key q = Some k then None else map_of S k)"
  unfolding remaining_def
  using map_of_filter_key [of "\<lambda>k. \<not> (\<exists>q \<in> set pre. first_matched F S q \<and> key q = Some k)" S k]
  by (auto split: if_splits)

lemma same_selectors_find:
  "same_selectors p q \<Longrightarrow> List.find (same_selectors q) F = List.find (same_selectors p) F"
  by (rule find_cong) (auto simp: same_selectors_def)

lemma takes_iff_wanted:
  assumes F: "F = pre @ p # ps" and dist: "distinct F"
    and H2: "\<forall>q \<in> set F. conditional q \<and> isDefault q \<and> dict_in (key q) S \<longrightarrow> first_matched F S q"
  shows "takes p None True True (remaining F S pre) = wanted F S p"
proof (cases "conditional p")
  case False
  then show ?thesis by (simp add: takes_def wanted_def)
next
  case True
  then obtain k v where kv: "key p = Some k" "val p = Some v"
    using conditional_key_val by blast
  have pF: "p \<in> set F" using F by simp
  have p_pre: "p \<notin> set pre" using F dist by auto
  let ?d = "remaining F S pre"
  show ?thesis
  proof (cases "map_of S k")
    case None
    then have "map_of ?d k = None" by (simp add: map_of_remaining)
    with None True kv show ?thesis
      by (simp add: takes_def wanted_def in_excludes_def dict_in_def dict_get_def)
  next
    case (Some w)
    show ?thesis
    proof (cases "first_matched F S p")
      case fm: True
      have "\<not> (\<exists>q \<in> set pre. first_matched F S q \<and> key q = Some k)"
      proof
        assume "\<exists>q \<in> set pre. first_matched F S q \<and> key q = Some k"
        then obtain q where q: "q \<in> set pre" "first_matched F S q" "key q = Some k" by blast
        from q(2) have cq: "conditional q" and vq: "val q = dict_get S (key q)"
          and fq: "List.find (same_selectors q) F = Some q"
          by (auto simp: first_matched_def matched_def)
        from fm have vp: "val p = dict_get S (key p)"
          and fp: "List.find (same_selectors p) F = Some p"
          by (auto simp: first_matched_def matched_def)
        from cq vq vp q(3) kv have "same_selectors p q"
          by (simp add: same_selectors_def)
        from same_selectors_find [OF this, of F] fq fp have "q = p" by simp
        with q(1) p_pre show False by simp
      qed
      then have md: "map_of ?d k = Some w" using Some by (simp add: map_of_remaining)
      then have "?d \<noteq> []" by auto
      moreover from fm kv Some have "v = w"
        by (auto simp: first_matched_def matched_def dict_get_def)
      ultimately show ?thesis using True kv md Some fm
        by (simp add: takes_def wanted_def in_excludes_def dict_in_def dict_get_def)
    next
      case nfm: False
      have nd: "\<not> isDefault p"
      proof
        assume "isDefault p"
        with H2 pF True kv Some have "first_matched F S p"
          by (auto simp: dict_in_def)
        with nfm show False by simp
      qed
      have "\<not> (map_of ?d k = Some v)"
      proof
        assume a: "map_of ?d k = Some v"
        then have keep: "\<not> (\<exists>q \<in> set pre. first_matched F S q \<and> key q = Some k)"
          and "map_of S k = Some v"
          by (auto simp: map_of_remaining split: if_splits)
        with Some have vw: "v = w" by simp
        have mp: "matched S p" using True kv Some vw
          by (simp add: matched_def dict_in_def dict_get_def)
        have sp: "same_selectors p p" using True by (simp add: same_selectors_def)
        from mp nfm have nf: "List.find (same_selectors p) F \<noteq> Some p"
          by (simp add: first_matched_def)
        with F sp obtain q where fq: "List.find (same_selectors p) pre = Some q"
          by (auto simp: find_append_Cons split: option.splits)
        then have q: "q \<in> set pre" "same_selectors p q" using find_in_set by metis+
        from fq F have fF: "List.find (same_selectors p) F = Some q"
          by (simp add: find_append_Cons)
        from q(2) kv Some vw have "matched S q"
          by (simp add: matched_def same_selectors_def dict_in_def dict_get_def)
        with fF same_selectors_find [OF q(2), of F] have "first_matched F S q"
          by (simp add: first_matched_def)
        moreover from q(2) kv have "key q = Some k" by (simp add: same_selectors_def)
        ultimately show False using keep q(1) by blast
      qed
      with True kv Some nfm nd show ?thesis
        by (auto simp: takes_def wanted_def in_excludes_def dict_in_def dict_get_def)
    qed
  qed
qed

lemma consume_remaining:
  assumes "wanted F S p"
  shows "consume p (remaining F S pre) = remaining F S (pre @ [p])"
proof (cases "first_matched F S p")
  case True
  then have "conditional p" by (simp add: first_matched_def matched_def)
  then obtain k v where kv: "key p = Some k" "val p = Some v"
    using conditional_key_val by blast
  with True show ?thesis by (simp add: consume_def remaining_snoc_del)
next
  case False
  show ?thesis
  proof (cases "conditional p")
    case c: True
    then obtain k v where kv: "key p = Some k" "val p = Some v"
      using conditional_key_val by blast
    from assms c False have "\<not> dict_in (key p) S" by (auto simp: wanted_def split: if_splits)
    with kv have "map_of S k = None" by (simp add: dict_in_def)
    then have "map_of (remaining F S pre) k = None" by (simp add: map_of_remaining)
    with kv False show ?thesis by (simp add: consume_def dict_del_absent remaining_snoc_eq)
  next
    case c: False
    with False show ?thesis by (simp add: consume_def not_conditional_key remaining_snoc_eq)
  qed
qed

lemma select_loop_wanted:
  assumes dist: "distinct F"
    and H2: "\<forall>q \<in> set F. conditional q \<and> isDefault q \<and> dict_in (key q) S \<longrightarrow> first_matched F S q"
  shows "F = pre @ ps \<Longrightarrow>
         select_loop ps None True True acc (Some (remaining F S pre)) =
           Inr (acc @ filter (wanted F S) ps, Some (remaining F S F))"
proof (induction ps arbitrary: pre acc)
  case Nil
  then show ?case by simp
next
  case (Cons p ps)
  have F: "F = pre @ p # ps" using Cons.prems .
  then have F': "F = (pre @ [p]) @ ps" by simp
  have t: "takes p None True True (remaining F S pre) = wanted F S p"
    using takes_iff_wanted [OF F dist H2] .
  show ?case
  proof (cases "wanted F S p")
    case True
    with t Cons.IH [OF F', of "acc @ [p]"] consume_remaining [OF True, of pre]
    show ?thesis by (simp add: select_loop_Cons_Some del: select_loop.simps)
  next
    case False
    then have "\<not> first_matched F S p"
      by (auto simp: wanted_def first_matched_def matched_def split: if_splits)
    with False t Cons.IH [OF F', of acc]
    show ?thesis by (simp add: select_loop_Cons_Some remaining_snoc_eq del: select_loop.simps)
  qed
qed

lemma remaining_all_empty:
  assumes H1: "\<forall>k w. map_of S k = Some w \<longrightarrow>
                 (\<exists>p \<in> set F. conditional p \<and> key p = Some k \<and> val p = Some w)"
  shows "remaining F S F = []"
proof -
  have "\<exists>q \<in> set F. first_matched F S q \<and> key q = Some (fst kv)" if kv: "kv \<in> set S" for kv
  proof -
    from kv obtain w where w: "map_of S (fst kv) = Some w"
      by (metis domD domI map_of_eq_None_iff image_eqI option.exhaust)
    with H1 obtain p where p: "p \<in> set F" "conditional p" "key p = Some (fst kv)" "val p = Some w"
      by blast
    then have "same_selectors p p" by (simp add: same_selectors_def)
    with p(1) obtain q where fq: "List.find (same_selectors p) F = Some q"
      using find_exists by metis
    then have q: "q \<in> set F" "same_selectors p q" using find_in_set by metis+
    from q(2) p w have "matched S q"
      by (simp add: matched_def same_selectors_def dict_in_def dict_get_def)
    with fq same_selectors_find [OF q(2), of F] have "first_matched F S q"
      by (simp add: first_matched_def)
    moreover from q(2) p have "key q = Some (fst kv)" by (simp add: same_selectors_def)
    ultimately show ?thesis using q(1) by blast
  qed
  then show ?thesis by (simp add: remaining_def filter_empty_conv)
qed


lemma selectors_matchedD:
  assumes "selectors_matched F S" and "map_of S k = Some w"
  shows "\<exists>p \<in> set F. conditional p \<and> key p = Some k \<and> val p = Some w"
proof -
  from assms(2) have "(k, w) \<in> set S" by (rule map_of_SomeD)
  with assms(1) show ?thesis
    by (force simp: selectors_matched_def list_all_iff list_ex_iff)
qed

lemma map_of_dict_del_other: "k' \<noteq> k \<Longrightarrow> map_of (dict_del k' d) k = map_of d k"
  by (induction d) (auto simp: dict_del_def)

lemma select_loop_keeps_key:
  assumes "\<forall>p \<in> set ps. key p \<noteq> Some k"
    and "select_loop ps ex c df acc (Some d) = Inr (xs, Some d')"
  shows "map_of d' k = map_of d k"
  using assms
proof (induction ps arbitrary: acc d)
  case Nil
  then show ?case by simp
next
  case (Cons p ps)
  from Cons.prems(1) have kp: "key p \<noteq> Some k" and rest: "\<forall>q \<in> set ps. key q \<noteq> Some k"
    by simp_all
  show ?case
  proof (cases "takes p ex c df d")
    case True
    with Cons.prems(2) have "select_loop ps ex c df (acc @ [p]) (Some (consume p d)) = Inr (xs, Some d')"
      by (simp add: select_loop_Cons_Some del: select_loop.simps)
    from Cons.IH [OF rest this] have "map_of d' k = map_of (consume p d) k" .
    also from kp have "map_of (consume p d) k = map_of d k"
      by (auto simp: consume_def map_of_dict_del_other split: option.splits)
    finally show ?thesis .
  next
    case False
    with Cons.prems(2) have "select_loop ps ex c df acc (Some d) = Inr (xs, Some d')"
      by (simp add: select_loop_Cons_Some del: select_loop.simps)
    from Cons.IH [OF rest this] show ?thesis .
  qed
qed

text \<open>
  A key of the selector that no fragment carries is reported: the final test of
  \<open>select\<close> raises \<open>ConfigError\<close> with a dictionary that still holds it.
\<close>

lemma select_raises_for_absent_key:
  assumes "map_of S k = Some w" and "\<forall>p \<in> set F. key p \<noteq> Some k"
  shows "\<exists>d'. select F (Some S) ex c df =
           (Inl (ConfigError ''not all selector processed: %s'' d'), Some d') \<and>
         map_of d' k = Some w"
proof -
  from select_loop_Some [of F ex c df "[]" S] obtain xs d' where
    l: "select_loop F ex c df [] (Some S) = Inr (xs, Some d')"
    by auto
  from select_loop_keeps_key [OF assms(2) l] assms(1) have m: "map_of d' k = Some w" by simp
  then obtain kv d'' where "d' = kv # d''" by (cases d') auto
  with l m show ?thesis by (simp add: select_def)
qed

section \<open>The claims about select\<close>

text \<open>
  C1. The specification says that, when every key of the selector map \<open>S\<close> is matched
  by a conditional fragment, \<open>select(F, S, None)\<close> returns in list order exactly the
  matched fragment of each key, the unconditional fragments and the default
  fragments whose key \<open>S\<close> does not hold. The code departs from this in two ways.
  It returns a single selected fragment bare instead of in a list. And its branch
  for defaults does not look at \<open>S\<close>: a default fragment whose key is in \<open>S\<close> with
  another value is appended too, and \<open>_select\<close> deletes that key from the selector,
  so the fragment asked for is passed over. Below, \<open>scheme.light\<close> is asked for and
  \<open>scheme.dark\<close>, which carries the default marker, is returned.
\<close>

theorem select_default_shadows_selector:
  "distinct [scheme_dark, scheme_light] \<and>
   selectors_matched [scheme_dark, scheme_light] [(''scheme'', ''light'')] \<and>
   spec_selection [scheme_dark, scheme_light] [(''scheme'', ''light'')] = [scheme_light] \<and>
   select [scheme_dark, scheme_light] (Some [(''scheme'', ''light'')]) None True True =
     (Inr (Single scheme_dark), Some [])"
  by (simp add: partial_eval example_fragments select_eval selectors_matched_def spec_selection_def)

text \<open>
  C1, as the code does it by design. Let \<open>F\<close> list no fragment twice, let every
  entry of \<open>S\<close> be matched by a conditional fragment, and let no default fragment
  carry a key of \<open>S\<close> unless it is the first fragment matched for that key. Then
  \<open>select\<close> with no excludes and both flags set succeeds, leaves the selector it was
  given empty, and selects, in the order of \<open>F\<close>, exactly the fragments that are
  unconditional, or first matched for a key of \<open>S\<close>, or default with a key that \<open>S\<close>
  does not hold; it returns them as a list, or bare when there is exactly one.
\<close>

theorem select_exactly_wanted:
  assumes "distinct F"
    and "selectors_matched F S"
    and "\<forall>q \<in> set F. conditional q \<and> isDefault q \<and> dict_in (key q) S \<longrightarrow> first_matched F S q"
  shows "select F (Some S) None True True = (Inr (one_or_list (filter (wanted F S) F)), Some [])"
proof -
  have H1: "\<forall>k w. map_of S k = Some w \<longrightarrow>
              (\<exists>p \<in> set F. conditional p \<and> key p = Some k \<and> val p = Some w)"
    using selectors_matchedD [OF assms(2)] by blast
  have "remaining F S [] = S" by (simp add: remaining_def)
  with select_loop_wanted [OF assms(1,3), of "[]" F "[]"] remaining_all_empty [OF H1]
  have "select_loop F None True True [] (Some S) = Inr (filter (wanted F S) F, Some [])"
    by simp
  then show ?thesis by (simp add: select_def)
qed

theorem select_exactly_wanted_witness:
  "select [base_conf, mode_default, scheme_dark, scheme_light]
      (Some [(''scheme'', ''dark'')]) None True True =
     (Inr (Many [base_conf, mode_default, scheme_dark]), Some [])"
proof -
  let ?F = "[base_conf, mode_default, scheme_dark, scheme_light]"
  let ?S = "[(''scheme'', ''dark'')]"
  note ev = partial_eval example_fragments mode_default_def
  have d: "distinct ?F" by (simp add: ev)
  have m: "selectors_matched ?F ?S" by (simp add: ev selectors_matched_def)
  have f: "\<forall>q \<in> set ?F. conditional q \<and> isDefault q \<and> dict_in (key q) ?S \<longrightarrow> first_matched ?F ?S q"
    by (simp add: ev dict_in_def dict_get_def first_matched_def matched_def
          same_selectors_def)
  have w: "filter (wanted ?F ?S) ?F = [base_conf, mode_default, scheme_dark]"
    by (simp add: ev dict_in_def dict_get_def wanted_def first_matched_def matched_def
          same_selectors_def)
  from select_exactly_wanted [OF d m f] w show ?thesis
    by (simp add: one_or_list_def)
qed

text \<open>
  C2. The specification says that \<open>select\<close> works on a copy of the selector map and
  that two calls with the same inputs return the same. The code has no copy:
  \<open>_select\<close> deletes from the dictionary it was given. The first call below returns
  \<open>scheme.light\<close> and empties the selector, so the second call on the same object
  returns the empty list.
\<close>

theorem select_twice_differs:
  "select_twice [scheme_light] (Some [(''scheme'', ''light'')]) None True True =
     (Inr (Single scheme_light), Inr (Many []), Some [])"
  by (simp add: select_twice_def partial_eval example_fragments select_eval)

text \<open>
  C2, as the code does it. A call that is given a selector map and succeeds leaves
  that map empty, so a second call on the same object runs with the empty map. On
  an empty selector map \<open>select\<close> is idempotent: it succeeds, leaves the map empty,
  and a second call on the same object returns the same ordered output.
\<close>

theorem select_consumes_selector:
  assumes "select prts (Some S) ex conditionals defaults = (Inr r, selector')"
  shows "selector' = Some [] \<and>
         (\<exists>r'. select_twice prts (Some S) ex conditionals defaults = (Inr r, Inr r', Some []) \<and>
               select_twice prts (Some []) ex conditionals defaults = (Inr r', Inr r', Some []))"
proof -
  from select_loop_Some [of prts ex conditionals defaults "[]" S] obtain xs d' where
    l: "select_loop prts ex conditionals defaults [] (Some S) = Inr (xs, Some d')"
    by auto
  with assms have s: "selector' = Some []"
    by (cases d') (auto simp: select_def)
  from select_loop_Some [of prts ex conditionals defaults "[]" "[]"] obtain ys where
    "select_loop prts ex conditionals defaults [] (Some []) = Inr (ys, Some [])"
    by auto
  then have e: "select prts (Some []) ex conditionals defaults = (Inr (one_or_list ys), Some [])"
    by (simp add: select_def)
  then have "select_twice prts (Some []) ex conditionals defaults =
      (Inr (one_or_list ys), Inr (one_or_list ys), Some [])"
    by (simp add: select_twice_def)
  moreover from assms s e have "select_twice prts (Some S) ex conditionals defaults =
      (Inr r, Inr (one_or_list ys), Some [])"
    by (simp add: select_twice_def)
  ultimately show ?thesis using s by blast
qed

theorem select_consumes_selector_witness:
  "select [base_conf, scheme_light] (Some [(''scheme'', ''light'')]) None True True =
     (Inr (Many [base_conf, scheme_light]), Some []) \<and>
   select_twice [base_conf, scheme_light] (Some []) None True True =
     (Inr (Single base_conf), Inr (Single base_conf), Some [])"
proof -
  have e: "select [base_conf, scheme_light] (Some [(''scheme'', ''light'')]) None True True =
     (Inr (Many [base_conf, scheme_light]), Some [])"
    by (simp add: partial_eval example_fragments select_eval)
  from select_consumes_selector [OF e] obtain r' where
    "select_twice [base_conf, scheme_light] (Some []) None True True =
       (Inr r', Inr r', Some [])"
    by blast
  moreover have "fst (select_twice [base_conf, scheme_light] (Some []) None True True) =
      Inr (Single base_conf)"
    by (simp add: select_twice_def partial_eval example_fragments select_eval)
  ultimately show ?thesis using e by simp
qed

text \<open>
  C3. The specification says that a key of \<open>S\<close> that no fragment matches makes
  \<open>select\<close> raise an error that names it, and the final test of \<open>select\<close> raises
  \<open>ConfigError\<close> with what is left of the selector. But a default fragment with the
  same key and another value is appended by the branch for defaults, and \<open>_select\<close>
  deletes the key: the request for \<open>scheme = light\<close>, which no fragment matches, is
  dropped without an error and \<open>scheme.dark\<close> is returned.
\<close>

theorem select_drops_unmatched_selector:
  "find_partial [base_conf, scheme_dark] (Some ''scheme'') (Some ''light'') = None \<and>
   select [base_conf, scheme_dark] (Some [(''scheme'', ''light'')]) None True True =
     (Inr (Many [base_conf, scheme_dark]), Some [])"
  by (simp add: partial_eval example_fragments select_eval)

text \<open>
  C8. The specification says that \<open>select\<close> returns a list whatever the number of
  selected fragments. The code returns \<open>selected[0] if len(selected) == 1 else
  selected\<close>, its annotation names \<open>Partial\<close> among the results, and \<open>get_content\<close>
  tells the two shapes apart: one selected fragment comes back bare.
\<close>

theorem select_one_fragment_is_bare:
  "select [base_conf] (Some []) None True True = (Inr (Single base_conf), Some []) \<and>
   fst (select [base_conf] (Some []) None True True) \<noteq> Inr (Many [base_conf])"
  by (simp add: partial_eval example_fragments select_eval)

text \<open>
  C8, as the code does it. Whenever \<open>select\<close> succeeds, the selected fragments
  follow the order of the fragment list, and the result is the list of them
  unless exactly one was selected, in which case it is that fragment itself.
\<close>

theorem select_bare_or_list:
  assumes "select prts selector ex conditionals defaults = (Inr r, selector')"
  shows "subseq (fragments r) prts \<and> r = one_or_list (fragments r)"
proof -
  from assms obtain xs where
    l: "select_loop prts ex conditionals defaults [] selector = Inr (xs, selector')"
    and r: "r = one_or_list xs"
    by (auto simp: select_def split: sum.splits option.splits list.splits prod.splits)
  from select_loop_subseq [OF l] r show ?thesis
    by (simp add: fragments_one_or_list)
qed


theorem select_bare_or_list_witness:
  "subseq [base_conf, scheme_dark] [base_conf, scheme_dark, scheme_light] \<and>
   Many [base_conf, scheme_dark] = one_or_list [base_conf, scheme_dark]"
proof -
  have "select [base_conf, scheme_dark, scheme_light] (Some []) None True True =
      (Inr (Many [base_conf, scheme_dark]), Some [])"
    by (simp add: partial_eval example_fragments select_eval)
  from select_bare_or_list [OF this] show ?thesis by (simp add: fragments_def)
qed

section \<open>The claim about the display view\<close>

lemmas text_eval =
  display_def filtered_def payload_def joined_def sub_continuation_def match_continuation_def
  splitlines_def linebreak_def strip_def isspace_def COMMENT_MARK_def
  END_OF_LINE_COMMENT_MARK_def rsplit1_head_def Partial_def path_stem_def split_def

lemma filtered_loop_filter: "filtered_loop sm ls acc = acc @ filter (kept sm) ls"
  by (induction ls arbitrary: acc) (auto simp: kept_def Let_def)

lemma payload_loop_map:
  "payload_loop ls acc =
     acc @ map (\<lambda>l. rsplit1_head l END_OF_LINE_COMMENT_MARK)
             (filter (\<lambda>l. strip l \<noteq> [] \<and> \<not> startswith (strip l) COMMENT_MARK) ls)"
  by (induction ls arbitrary: acc) (auto simp: Let_def)

lemma before_last_None: "\<not> contains s sep \<Longrightarrow> before_last sep s = None"
  by (induction s) auto

text \<open>
  Where no line holds an end-of-line comment mark and no line starts with
  \<open>SET_MARK\<close>, the filtered view is the payload and the display view is the one the
  specification describes.
\<close>

lemma display_is_spec_display:
  assumes "\<forall>l \<in> set (splitlines (joined p)).
             \<not> contains l END_OF_LINE_COMMENT_MARK \<and> (strip l = [] \<or> \<not> startswith (strip l) sm)"
  shows "display sm p = spec_display p"
proof -
  let ?ls = "splitlines (joined p)"
  let ?pk = "\<lambda>l. strip l \<noteq> [] \<and> \<not> startswith (strip l) COMMENT_MARK"
  have "map (\<lambda>l. rsplit1_head l END_OF_LINE_COMMENT_MARK) (filter ?pk ?ls) = filter ?pk ?ls"
  proof (rule map_idI)
    fix l
    assume "l \<in> set (filter ?pk ?ls)"
    with assms have "\<not> contains l END_OF_LINE_COMMENT_MARK" by simp
    then show "rsplit1_head l END_OF_LINE_COMMENT_MARK = l"
      by (simp add: rsplit1_head_def before_last_None)
  qed
  moreover have "filter (kept sm) ?ls = filter ?pk ?ls"
    using assms by (intro filter_cong) (auto simp: kept_def)
  ultimately have "filtered sm p = payload p"
    by (simp add: filtered_def payload_def filtered_loop_filter payload_loop_map)
  then show ?thesis by (simp add: display_def spec_display_def)
qed

text \<open>
  C9. The specification says that the display view is the payload, with the
  end-of-line comments removed, under a banner, and empty exactly when the payload
  is empty. The property \<open>display\<close> reads \<open>self.filtered\<close>, not \<open>self.payload\<close>: an
  end-of-line comment stays in the display view, and a fragment whose only lines
  start with \<open>SET_MARK\<close> has an empty display view and a payload that is not empty.
\<close>

theorem display_keeps_comment:
  "display ''set'' keys_conf =
     ''### keys.conf ###\<newline>bindsym $mod+d exec dmenu_run # launcher\<newline>\<newline>'' \<and>
   spec_display keys_conf =
     ''### keys.conf ###\<newline>bindsym $mod+d exec dmenu_run\<newline>\<newline>'' \<and>
   display ''set'' vars_conf = [] \<and>
   payload vars_conf = ''set $mod Mod4''"
  by (simp add: text_eval spec_display_def keys_conf_def vars_conf_def)

text \<open>
  C9, as the code does it. The display view is the filtered view under a banner
  that names the file, and it is empty exactly when the filtered view is empty.
  The filtered view joins, with newlines, the lines of the joined content that are
  not blank and start, once stripped, neither with \<open>SET_MARK\<close> nor with the comment
  mark; what follows an end-of-line comment mark stays.
\<close>

theorem display_wraps_filtered:
  "display sm p =
     (if filtered sm p = [] then []
      else ''### '' @ path p @ '' ###'' @ [CHR 0x0A] @ filtered sm p @ [CHR 0x0A, CHR 0x0A]) \<and>
   (display sm p = []) = (filtered sm p = []) \<and>
   filtered sm p = join [CHR 0x0A] (filter (kept sm) (splitlines (joined p)))"
  by (simp add: display_def filtered_def filtered_loop_filter)

theorem display_wraps_filtered_witness:
  "display ''set'' keys_conf =
     ''### keys.conf ###\<newline>bindsym $mod+d exec dmenu_run # launcher\<newline>\<newline>''"
proof -
  have "filter (kept ''set'') (splitlines (joined keys_conf)) =
      [''bindsym $mod+d exec dmenu_run # launcher'']"
    by (simp add: text_eval kept_def keys_conf_def)
  with display_wraps_filtered [of "''set''" keys_conf] show ?thesis
    by (simp add: keys_conf_def Partial_def)
qed

section \<open>The claims about the state store\<close>

lemmas process_eval =
  process_def fetch_state_def freeze_def SET_def SELECT_def SELECT_NEXT_def SELECT_PREVIOUS_def
  DEL_def lower_def lower_char_def dict_in_def dict_del_def

lemma map_of_dict_set: "map_of (dict_set k v d) k = Some v"
  by (induction d) auto

lemma map_of_dict_del: "map_of (dict_del k d) k = None"
  by (induction d) (auto simp: dict_del_def)

lemma process_SET_assign:
  "lower v \<noteq> DEL \<Longrightarrow>
   process (Some st) prts (Some (SET, k # v # rest)) =
     (Inr None, Some (st\<lparr>set_ns := dict_set k v (set_ns st)\<rparr>))"
  by (simp add: process_def fetch_state_def freeze_def)

lemma process_SET_delete:
  "lower v = DEL \<Longrightarrow>
   process (Some st) prts (Some (SET, k # v # rest)) =
     (if map_of (set_ns st) k \<noteq> None
      then (Inr None, Some (st\<lparr>set_ns := dict_del k (set_ns st)\<rparr>))
      else (Inl KeyError, Some st))"
  by (simp add: process_def fetch_state_def freeze_def dict_in_def)

lemma process_Str_command:
  "process (Some st) prts (Some (Str c, k # rest)) = (Inr None, Some st)"
  by (simp add: process_def fetch_state_def freeze_def SET_def SELECT_def SELECT_NEXT_def
        SELECT_PREVIOUS_def)

lemma process_select_next_raises:
  "cmd = SELECT_NEXT \<or> cmd = SELECT_PREVIOUS \<Longrightarrow>
   process (Some st) prts (Some (cmd, k # rest)) = (Inl TypeError, Some st)"
  by (auto simp: process_def fetch_state_def SET_def SELECT_NEXT_def SELECT_PREVIOUS_def)

lemma index_None_iff: "(index xs x = None) = (x \<notin> set xs)"
  by (induction xs) auto

lemma index_Some: "index xs x = Some i \<Longrightarrow> i < length xs \<and> xs ! i = x"
  by (induction xs arbitrary: i) (auto split: if_splits)

lemma index_nth_distinct: "distinct xs \<Longrightarrow> i < length xs \<Longrightarrow> index xs (xs ! i) = Some i"
proof (induction xs arbitrary: i)
  case Nil
  then show ?case by simp
next
  case (Cons y ys)
  show ?case
  proof (cases i)
    case 0
    then show ?thesis by simp
  next
    case (Suc j)
    with Cons.prems have "j < length ys" "ys ! j \<in> set ys" "y \<notin> set ys" by auto
    then have "y \<noteq> ys ! j" by auto
    with Suc Cons show ?thesis by simp
  qed
qed

lemma State_next_Some:
  "index items c = Some i \<Longrightarrow>
   State_next c items = Inr (if i + 1 < length items then items ! (i + 1) else items ! 0)"
  by (frule index_Some) (auto simp: State_next_def getitem_def nat_add_distrib)

lemma State_previous_Some:
  "index items c = Some i \<Longrightarrow>
   State_previous c items = Inr (if 0 < i then items ! (i - 1) else items ! (length items - 1))"
  by (frule index_Some) (auto simp: State_previous_def getitem_def nat_diff_distrib)

text \<open>
  The two helpers undo each other on a list of distinct candidates, and wrap
  around at both ends.
\<close>

lemma State_previous_next:
  assumes "distinct items" and "c \<in> set items"
  shows "\<exists>n. State_next c items = Inr n \<and> State_previous n items = Inr c"
proof -
  from assms(2) obtain i where i: "index items c = Some i"
    using index_None_iff [of items c] by auto
  then have il: "i < length items" and ic: "items ! i = c" using index_Some by metis+
  show ?thesis
  proof (cases "i + 1 < length items")
    case True
    from index_nth_distinct [OF assms(1) True] have "index items (items ! (i + 1)) = Some (i + 1)" .
    from State_previous_Some [OF this] State_next_Some [OF i] True ic show ?thesis by simp
  next
    case False
    with il have last: "i = length items - 1" by simp
    from il have "0 < length items" by (cases items) simp_all
    from index_nth_distinct [OF assms(1) this] have "index items (items ! 0) = Some 0" .
    from State_previous_Some [OF this] State_next_Some [OF i] False ic last il show ?thesis
      by auto
  qed
qed

lemma State_next_previous:
  assumes "distinct items" and "c \<in> set items"
  shows "\<exists>n. State_previous c items = Inr n \<and> State_next n items = Inr c"
proof -
  from assms(2) obtain i where i: "index items c = Some i"
    using index_None_iff [of items c] by auto
  then have il: "i < length items" and ic: "items ! i = c" using index_Some by metis+
  show ?thesis
  proof (cases "0 < i")
    case True
    with il have "i - 1 < length items" by simp
    from index_nth_distinct [OF assms(1) this] have "index items (items ! (i - 1)) = Some (i - 1)" .
    from State_next_Some [OF this] State_previous_Some [OF i] True ic il show ?thesis by simp
  next
    case False
    from il have "length items - 1 < length items" by simp
    from index_nth_distinct [OF assms(1) this]
    have "index items (items ! (length items - 1)) = Some (length items - 1)" .
    from State_next_Some [OF this] State_previous_Some [OF i] False ic il show ?thesis by simp
  qed
qed

lemma State_wraparound:
  assumes "distinct items" and "items \<noteq> []"
  shows "State_next (last items) items = Inr (hd items) \<and>
         State_previous (hd items) items = Inr (last items)"
proof -
  from assms(2) have l: "0 < length items" "length items - 1 < length items" by simp_all
  from index_nth_distinct [OF assms(1) l(2)] State_next_Some
  have "State_next (items ! (length items - 1)) items = Inr (items ! 0)" by fastforce
  moreover from index_nth_distinct [OF assms(1) l(1)] State_previous_Some
  have "State_previous (items ! 0) items = Inr (items ! (length items - 1))" by fastforce
  ultimately show ?thesis using assms(2) by (simp add: last_conv_nth hd_conv_nth)
qed


text \<open>
  C4. The specification says that \<open>set\<close> with the deletion sentinel removes the key
  and does nothing when the key is absent, and that any other value is stored.
  \<open>process\<close> compares the first item of the message with the tuple \<open>("set", 2)\<close>:
  a message that starts with the string \<open>set\<close> takes no branch and the state is
  written back as it was. With the tuple itself as first item, \<open>del state["set"][key]\<close>
  raises \<open>KeyError\<close> for a key that is absent, and nothing is written.
\<close>

theorem process_set_fails:
  "process (Some \<lparr>select_ns = [], set_ns = []\<rparr>) [] (Some (Str ''set'', [''color'', ''red''])) =
     (Inr None, Some \<lparr>select_ns = [], set_ns = []\<rparr>) \<and>
   process (Some \<lparr>select_ns = [], set_ns = []\<rparr>) [] (Some (SET, [''color'', ''del''])) =
     (Inl KeyError, Some \<lparr>select_ns = [], set_ns = []\<rparr>)"
  by (simp add: process_eval)

text \<open>
  C5. The specification says that \<open>select-next\<close> followed by \<open>select-previous\<close>
  restores the selection, with wrap-around at both ends. In \<open>process\<close> the branch
  of the two commands calls \<open>partials.find(prts, key)\<close> without the third argument
  that \<open>find\<close> requires, so it raises \<open>TypeError\<close> and no selection is stored; a
  message that starts with the command's name as a string takes no branch at all.
  The selection \<open>light\<close>, the last candidate, is not advanced to \<open>dark\<close>.
\<close>

theorem process_select_next_fails:
  "process (Some state_light) [scheme_dark, scheme_light] (Some (Str ''select-next'', [''scheme''])) =
     (Inr None, Some state_light) \<and>
   process (Some state_light) [scheme_dark, scheme_light] (Some (SELECT_NEXT, [''scheme''])) =
     (Inl TypeError, Some state_light) \<and>
   process (Some state_light) [scheme_dark, scheme_light] (Some (SELECT_PREVIOUS, [''scheme''])) =
     (Inl TypeError, Some state_light)"
  by (simp add: process_eval state_light_def)

text \<open>
  C10. The claim says that \<open>process\<close> raises \<open>ValueError\<close> from the index lookup when
  the persisted selection is not among the candidates. As \<open>process\<close> is written, the
  branch fails before it reaches the helpers, with the \<open>TypeError\<close> of the call of
  \<open>find\<close>.
\<close>

theorem process_stale_selection_raises_TypeError:
  "find_partial [scheme_dark, scheme_light] (Some ''scheme'') (Some ''solarized'') = None \<and>
   process (Some state_gone) [scheme_dark, scheme_light] (Some (SELECT_NEXT, [''scheme''])) =
     (Inl TypeError, Some state_gone) \<and>
   fst (process (Some state_gone) [scheme_dark, scheme_light] (Some (SELECT_PREVIOUS, [''scheme'']))) \<noteq>
     Inl ValueError"
  by (simp add: process_eval partial_eval example_fragments state_gone_def)

text \<open>
  C10, for the helpers themselves. \<open>_next\<close> and \<open>_previous\<close> return a candidate
  exactly when the current value is an element of the list, and raise \<open>ValueError\<close>,
  which they do not catch, exactly when it is not.
\<close>

theorem State_next_previous_total:
  "(State_next c items = Inl ValueError) = (c \<notin> set items) \<and>
   (\<exists>x. State_next c items = Inr x) = (c \<in> set items) \<and>
   (State_previous c items = Inl ValueError) = (c \<notin> set items) \<and>
   (\<exists>x. State_previous c items = Inr x) = (c \<in> set items)"
proof (cases "index items c")
  case None
  then have "c \<notin> set items" by (simp add: index_None_iff)
  with None show ?thesis by (simp add: State_next_def State_previous_def)
next
  case (Some i)
  then have "c \<in> set items" using index_None_iff [of items c] by auto
  with State_next_Some [OF Some] State_previous_Some [OF Some] show ?thesis by simp
qed

theorem State_next_previous_total_witness:
  "State_next ''solarized'' [''dark'', ''light''] = Inl ValueError \<and>
   State_next ''light'' [''dark'', ''light''] = Inr ''dark'' \<and>
   State_previous ''dark'' [''dark'', ''light''] = Inr ''light''"
proof -
  have "State_next ''light'' [''dark'', ''light''] = Inr ''dark''"
    and "State_previous ''dark'' [''dark'', ''light''] = Inr ''light''"
    by (simp_all add: State_next_def State_previous_def getitem_def)
  with State_next_previous_total [of "''solarized''" "[''dark'', ''light'']"] show ?thesis
    by simp
qed

section \<open>The claims about build definitions\<close>

lemma matches_False: "matches bd p = Some False"
  by (auto simp: matches_def)

lemma needs_build_raises: "needs_build bd now watchPath filename = Inl TypeError"
  by (simp add: needs_build_def call_matches_def)

text \<open>
  C6. The specification says that \<open>needs_build\<close> returns \<open>True\<close> for a watched file
  with the right suffix on the first build, when another file changed, and after
  the delay. \<open>needs_build\<close> calls \<open>self.matches(filename, watchPath)\<close>, and \<open>matches\<close>
  takes one path: every call raises \<open>TypeError\<close>. \<open>matches\<close> itself, which its
  comment calls a placeholder, never returns \<open>True\<close>.
\<close>

theorem needs_build_first_build_fails:
  "path_suffix ''base.conf'' = suffix' i3_def \<and>
   ''/home/u/.i3/config.d'' \<in> set (watchPaths i3_def) \<and>
   lastBuild i3_def = None \<and>
   needs_build i3_def 1000 ''/home/u/.i3/config.d'' ''base.conf'' = Inl TypeError \<and>
   matches i3_def ''base.conf'' = Some False"
  by (simp add: i3_def_def path_suffix_def needs_build_raises matches_False)

text \<open>
  C7. The specification says that a build definition with both \<open>files\<close> and
  \<open>excludes\<close> fails at construction. \<open>check_sanity\<close> raises \<open>BuildDefError\<close> for such a
  definition, but \<open>__init__\<close> does not call it: the definition is constructed.
\<close>

theorem BuildDef_accepts_both_filters:
  "BuildDef id ini ''builddef:i3'' = Inr i3_def \<and>
   files i3_def \<noteq> [] \<and> excludes i3_def \<noteq> [] \<and>
   check_sanity i3_def = Inl BuildDefError"
  by (simp add: BuildDef_def ini_def i3_def_def bind_def getitem_def split_def MARK_def
        config_get_def config_get_fallback_def config_getboolean_def lower_def lower_char_def
        prep_def check_sanity_def)


end
